theory Spec2Isabelle
  imports Main "HOL-Library.Sublist" "HOL-Library.Product_Lexorder"
begin

section \<open>Library functions the recovery script calls on strings\<close>

text \<open>
  The script runs on POSIX paths. The functions of this section are the ones of Python's
  standard library that \<^verbatim>\<open>recovery.py\<close> calls on strings; each is written after
  the library's own code (\<^verbatim>\<open>posixpath\<close>, \<^verbatim>\<open>genericpath\<close>, \<^verbatim>\<open>str\<close>).
\<close>

text \<open>\<^verbatim>\<open>str.rfind\<close> for a one-character needle: the last index, or -1.\<close>

fun rfind :: "char \<Rightarrow> string \<Rightarrow> int" where
  "rfind c [] = -1"
| "rfind c (x # xs) =
     (let r = rfind c xs in if 0 \<le> r then r + 1 else if x = c then 0 else -1)"

text \<open>\<^verbatim>\<open>s.startswith(p)\<close> and \<^verbatim>\<open>s.endswith(p)\<close>.\<close>

definition startswith :: "string \<Rightarrow> string \<Rightarrow> bool" where
  "startswith s p = prefix p s"

definition endswith :: "string \<Rightarrow> string \<Rightarrow> bool" where
  "endswith s p = suffix p s"

text \<open>
  \<^verbatim>\<open>genericpath._splitext(p, '/', None, '.')\<close>, which is \<^verbatim>\<open>os.path.splitext\<close>:
  the extension starts at the last dot, provided that dot comes after the last slash and
  some character between the slash and the dot is not a dot.
\<close>

definition splitext :: "string \<Rightarrow> string \<times> string" where
  "splitext p =
     (let sepIndex = rfind CHR ''/'' p;
          dotIndex = rfind CHR ''.'' p
      in if sepIndex < dotIndex \<and>
            list_ex (\<lambda>c. c \<noteq> CHR ''.'')
              (take (nat (dotIndex - (sepIndex + 1))) (drop (nat (sepIndex + 1)) p))
         then (take (nat dotIndex) p, drop (nat dotIndex) p)
         else (p, []))"

text \<open>\<^verbatim>\<open>os.path.basename\<close>, \<^verbatim>\<open>os.path.dirname\<close> and \<^verbatim>\<open>os.path.join\<close>.\<close>

definition basename :: "string \<Rightarrow> string" where
  "basename p = drop (nat (rfind CHR ''/'' p + 1)) p"

definition rstrip :: "char \<Rightarrow> string \<Rightarrow> string" where
  "rstrip c s = rev (dropWhile (\<lambda>x. x = c) (rev s))"

definition dirname :: "string \<Rightarrow> string" where
  "dirname p =
     (let head = take (nat (rfind CHR ''/'' p + 1)) p
      in if head \<noteq> [] \<and> head \<noteq> replicate (length head) CHR ''/''
         then rstrip CHR ''/'' head else head)"

definition join :: "string \<Rightarrow> string \<Rightarrow> string" where
  "join a b =
     (if startswith b ''/'' then b
      else if a = [] \<or> endswith a ''/'' then a @ b
      else a @ ''/'' @ b)"

text \<open>\<^verbatim>\<open>s.split(sep)\<close> for a one-character separator; the result is never empty.\<close>

fun split_str :: "char \<Rightarrow> string \<Rightarrow> string list" where
  "split_str sep [] = [[]]"
| "split_str sep (c # cs) =
     (if c = sep then [] # split_str sep cs
      else (case split_str sep cs of
              [] \<Rightarrow> [[c]]
            | w # ws \<Rightarrow> (c # w) # ws))"


section \<open>The filename codec (\<^verbatim>\<open>recovery.py\<close>, lines 101-125)\<close>

text \<open>
  \<^verbatim>\<open>split_extension\<close> (lines 101-111): the library's split, with name and extension
  swapped when the name starts with a dot and the extension is empty.
\<close>

definition split_extension :: "string \<Rightarrow> string \<times> string" where
  "split_extension filename =
     (let (name, ext) = splitext filename
      in if startswith name ''.'' \<and> length ext = 0 then ([], name) else (name, ext))"


text \<open>
  Lines 123-125, the timestamp of one backup filename: the text after the last \<open>~\<close> of
  the name without its extension, handed to \<^verbatim>\<open>datetime.strptime\<close> with the format
  \<^verbatim>\<open>%Y%m%d-%H%M%S\<close>. The library's parser is the parameter \<open>parse\<close>; \<open>None\<close>
  stands for the \<^verbatim>\<open>ValueError\<close> it raises. Timestamps are any linearly ordered type,
  as naive \<^verbatim>\<open>datetime\<close> values are.
\<close>

definition candidate_timestamp :: "(string \<Rightarrow> 't option) \<Rightarrow> string \<Rightarrow> 't option" where
  "candidate_timestamp parse file =
     (let (base, ext) = split_extension file;
          timestamp_str = last (split_str CHR ''~'' base)
      in parse timestamp_str)"


section \<open>The selector: \<^verbatim>\<open>get_backup_file_info\<close> (lines 36-52, 114-138)\<close>

text \<open>The exceptions that leave the functions modelled here.\<close>

datatype error = ValueError | OSError | BdbQuit

record 't BackupFileInfo =
  count :: int
  latest_time :: "'t option"
  latest_file :: "string option"
  latest_outside_limit :: bool
  backup_file :: "string option"
  backup_time :: "'t option"

definition BackupFileInfo_init :: "'t BackupFileInfo" where
  "BackupFileInfo_init =
     \<lparr>count = 0, latest_time = None, latest_file = None, latest_outside_limit = False,
      backup_file = None, backup_time = None\<rparr>"

text \<open>
  One turn of the loop of lines 122-136. \<open>cutoff\<close> is the value of
  \<^verbatim>\<open>REFERENCE_TIME + TIME_LIMIT\<close>, two module-level variables of the script.
\<close>

definition scan_candidate ::
  "(string \<Rightarrow> 't::linorder option) \<Rightarrow> 't \<Rightarrow> 't BackupFileInfo \<Rightarrow> string
     \<Rightarrow> error + 't BackupFileInfo" where
  "scan_candidate parse cutoff bak file =
     (case candidate_timestamp parse file of
        None \<Rightarrow> Inl ValueError
      | Some timestamp \<Rightarrow>
          (let is_inside_time_limit = (timestamp \<le> cutoff);
               bak1 = (if (case latest_time bak of None \<Rightarrow> True | Some t \<Rightarrow> t < timestamp)
                       then bak\<lparr>latest_time := Some timestamp,
                                latest_file := Some file,
                                latest_outside_limit := \<not> is_inside_time_limit\<rparr>
                       else bak);
               bak2 = (if is_inside_time_limit
                       then (if (case backup_time bak1 of None \<Rightarrow> True | Some t \<Rightarrow> t < timestamp)
                             then bak1\<lparr>backup_time := Some timestamp, backup_file := Some file\<rparr>
                             else bak1)
                       else bak1)
           in Inr bak2))"

fun scan_candidates ::
  "(string \<Rightarrow> 't::linorder option) \<Rightarrow> 't \<Rightarrow> 't BackupFileInfo \<Rightarrow> string list
     \<Rightarrow> error + 't BackupFileInfo" where
  "scan_candidates parse cutoff bak [] = Inr bak"
| "scan_candidates parse cutoff bak (file # files) =
     (case scan_candidate parse cutoff bak file of
        Inl e \<Rightarrow> Inl e
      | Inr bak' \<Rightarrow> scan_candidates parse cutoff bak' files)"

definition get_backup_file_info ::
  "(string \<Rightarrow> 't::linorder option) \<Rightarrow> 't \<Rightarrow> string list \<Rightarrow> error + 't BackupFileInfo" where
  "get_backup_file_info parse cutoff backup_files =
     scan_candidates parse cutoff
       (BackupFileInfo_init\<lparr>count := int (length backup_files)\<rparr>) backup_files"


section \<open>The orchestrator: \<^verbatim>\<open>find_and_copy_backup\<close> (lines 54-80, 156-241)\<close>

record 't FileRecoveryResult =
  total_original :: int
  total_missing :: int
  total_recovered :: int
  total_possibly_corrupted :: int
  earliest_file_used :: "string option"
  earliest_time_used :: "'t option"
  latest_file_used :: "string option"
  latest_time_used :: "'t option"
  missing_files :: "string list"
  recovered_files ::
    "(string \<times> string \<times> 't option \<times> int \<times> bool \<times> string option \<times> 't option) list"
  possibly_corrupted_files :: "string list"

definition FileRecoveryResult_init :: "'t FileRecoveryResult" where
  "FileRecoveryResult_init =
     \<lparr>total_original = 0, total_missing = 0, total_recovered = 0,
      total_possibly_corrupted = 0,
      earliest_file_used = None, earliest_time_used = None,
      latest_file_used = None, latest_time_used = None,
      missing_files = [], recovered_files = [], possibly_corrupted_files = []\<rparr>"

text \<open>
  The calls the script makes to the operating system and to the library, over a state
  \<open>'w\<close> of the world outside the process (the file system, the operator at the
  debugger). A call that raises returns \<open>None\<close>; \<open>copy2\<close> returns whether it
  returned normally, since the script catches what it raises (line 234) and the
  destination may have changed either way.
\<close>

record ('w, 't) platform =
  path_exists :: "'w \<Rightarrow> string \<Rightarrow> bool"
  listdir :: "'w \<Rightarrow> string \<Rightarrow> string list option"
  makedirs :: "'w \<Rightarrow> string \<Rightarrow> 'w option"
  copy2 :: "'w \<Rightarrow> string \<Rightarrow> string \<Rightarrow> bool \<times> 'w"
  breakpoint :: "'w \<Rightarrow> 'w option"
  strptime :: "string \<Rightarrow> 't option"

text \<open>
  The module-level variables the loop reads (lines 15-17, 29-30); \<open>CUTOFF\<close> is the
  value of \<^verbatim>\<open>REFERENCE_TIME + TIME_LIMIT\<close>.
\<close>

record 't config =
  BACKUP_DIR :: string
  RECOVERY_DIR :: string
  CUTOFF :: 't

text \<open>
  The state of a run: the world, the calls made to it so far, in order, and the result
  under construction. The progress messages of lines 172-180 carry nothing into the
  result and are left out.
\<close>

datatype event =
    Exists string
  | Listdir string
  | Makedirs string
  | Copy2 string string
  | Breakpoint
  | LogError string

record ('w, 't) run_state =
  world :: 'w
  calls :: "event list"
  results :: "'t FileRecoveryResult"

definition called :: "event \<Rightarrow> ('w, 't) run_state \<Rightarrow> ('w, 't) run_state" where
  "called e st = st\<lparr>calls := calls st @ [e]\<rparr>"

definition add_missing :: "string \<Rightarrow> ('w, 't) run_state \<Rightarrow> ('w, 't) run_state" where
  "add_missing file st =
     st\<lparr>results := (results st)\<lparr>missing_files := missing_files (results st) @ [file]\<rparr>\<rparr>"

definition add_recovered ::
  "(string \<times> string \<times> 't option \<times> int \<times> bool \<times> string option \<times> 't option)
     \<Rightarrow> ('w, 't) run_state \<Rightarrow> ('w, 't) run_state" where
  "add_recovered row st =
     st\<lparr>results := (results st)\<lparr>recovered_files := recovered_files (results st) @ [row]\<rparr>\<rparr>"

text \<open>\<^verbatim>\<open>ensure_directory_exists\<close> (lines 83-91).\<close>

definition ensure_directory_exists :: "('w, 't) platform \<Rightarrow> 'w \<Rightarrow> string \<Rightarrow> 'w option" where
  "ensure_directory_exists p w directory = makedirs p w directory"

text \<open>Line 187: the directory of the backup store that mirrors the file's directory.\<close>

definition backup_dir_path :: "'t config \<Rightarrow> string \<Rightarrow> string" where
  "backup_dir_path cfg file = join (BACKUP_DIR cfg) (dirname file)"

text \<open>Lines 183-185 and 194-197: the entries of the listing that match the file's name.\<close>

definition matching_backups :: "string \<Rightarrow> string list \<Rightarrow> string list" where
  "matching_backups file entries =
     (let file_name = basename file;
          (prefix0, suffix_pattern) = split_extension file_name;
          prefix_pattern = prefix0 @ ''~''
      in filter (\<lambda>f. startswith f prefix_pattern \<and> endswith f suffix_pattern) entries)"

text \<open>Lines 212-216: source and destination of the copy.\<close>

definition backup_path :: "'t config \<Rightarrow> string \<Rightarrow> string \<Rightarrow> string" where
  "backup_path cfg file chosen = join (join (BACKUP_DIR cfg) (dirname file)) chosen"

definition recovery_path :: "'t config \<Rightarrow> string \<Rightarrow> string" where
  "recovery_path cfg file = join (RECOVERY_DIR cfg) file"

text \<open>Lines 212-235: the copy of the chosen backup and its bookkeeping.\<close>

definition copy_backup ::
  "('w, 't) platform \<Rightarrow> 't config \<Rightarrow> ('w, 't) run_state \<Rightarrow> string
     \<Rightarrow> 't BackupFileInfo \<Rightarrow> string \<Rightarrow> error + ('w, 't) run_state" where
  "copy_backup p cfg st file backup_info chosen =
     (let src = backup_path cfg file chosen;
          dst = recovery_path cfg file;
          recovery_dir = dirname dst
      in case ensure_directory_exists p (world st) recovery_dir of
           None \<Rightarrow> Inl OSError
         | Some w1 \<Rightarrow>
             (let (copied, w2) = copy2 p w1 src dst;
                  st1 = called (Copy2 src dst) (called (Makedirs recovery_dir) (st\<lparr>world := w2\<rparr>))
              in if copied
                 then Inr (add_recovered
                             (file, chosen, backup_time backup_info, count backup_info,
                              latest_outside_limit backup_info, latest_file backup_info,
                              latest_time backup_info) st1)
                 else Inr (called (LogError (''Error copying '' @ src @ '' to '' @ dst @ ''.''))
                             st1)))"

text \<open>Lines 182-235: the body of the loop, for one original file.\<close>

definition process_file ::
  "('w, 't::linorder) platform \<Rightarrow> 't config \<Rightarrow> ('w, 't) run_state \<Rightarrow> string
     \<Rightarrow> error + ('w, 't) run_state" where
  "process_file p cfg st file =
     (let dir = backup_dir_path cfg file;
          st1 = called (Exists dir) st
      in if \<not> path_exists p (world st) dir then Inr (add_missing file st1)
         else (case listdir p (world st) dir of
                 None \<Rightarrow> Inl OSError
               | Some entries \<Rightarrow>
                   (let st2 = called (Listdir dir) st1;
                        backup_files = matching_backups file entries
                    in if backup_files = [] then Inr (add_missing file st2)
                       else (case get_backup_file_info (strptime p) (CUTOFF cfg) backup_files of
                               Inl e \<Rightarrow> Inl e
                             | Inr backup_info \<Rightarrow>
                                 (case backup_file backup_info of
                                    None \<Rightarrow>
                                      (case breakpoint p (world st) of
                                         None \<Rightarrow> Inl BdbQuit
                                       | Some w \<Rightarrow>
                                           Inr (add_missing file
                                                  (called Breakpoint (st2\<lparr>world := w\<rparr>))))
                                  | Some chosen \<Rightarrow>
                                      copy_backup p cfg st2 file backup_info chosen)))))"

text \<open>Lines 171-235: the loop. An exception that is not caught ends the run.\<close>

fun process_files ::
  "('w, 't::linorder) platform \<Rightarrow> 't config \<Rightarrow> ('w, 't) run_state \<Rightarrow> string list
     \<Rightarrow> error + ('w, 't) run_state" where
  "process_files p cfg st [] = Inr st"
| "process_files p cfg st (file # files) =
     (case process_file p cfg st file of
        Inl e \<Rightarrow> Inl e
      | Inr st' \<Rightarrow> process_files p cfg st' files)"

text \<open>Lines 166-168: the state the loop starts from.\<close>

definition initial_state :: "'w \<Rightarrow> string list \<Rightarrow> ('w, 't) run_state" where
  "initial_state w all_files =
     \<lparr>world = w, calls = [],
      results = FileRecoveryResult_init\<lparr>total_original := int (length all_files)\<rparr>\<rparr>"

definition find_and_copy_backup ::
  "('w, 't::linorder) platform \<Rightarrow> 't config \<Rightarrow> 'w \<Rightarrow> string list
     \<Rightarrow> error + ('w, 't) run_state" where
  "find_and_copy_backup p cfg w all_files =
     process_files p cfg (initial_state w all_files) all_files"


section \<open>A concrete platform, for running the script on examples\<close>

text \<open>
  Timestamps to the second, compared field by field as \<^verbatim>\<open>datetime\<close> compares them.
\<close>

type_synonym datetime = "nat \<times> nat \<times> nat \<times> nat \<times> nat \<times> nat"

text \<open>
  \<^verbatim>\<open>datetime.strptime(s, '%Y%m%d-%H%M%S')\<close> on ASCII text, after \<^verbatim>\<open>_strptime.py\<close>:
  the format becomes a regular expression of one group per directive, each group a list
  of alternatives tried in order, each alternative a list of character classes; the
  first match in backtracking order must end at the end of the text, and the fields
  must form a date and a time of day. The library's digit class also accepts decimal
  digits outside ASCII, which this function rejects. It serves the examples only: the
  functions of the script take the parser as a parameter, and what is proved of them
  holds for every parser.
\<close>

fun match_classes :: "string list \<Rightarrow> string \<Rightarrow> (string \<times> string) option" where
  "match_classes [] s = Some ([], s)"
| "match_classes (cl # cls) [] = None"
| "match_classes (cl # cls) (c # s) =
     (if c \<in> set cl
      then (case match_classes cls s of None \<Rightarrow> None | Some (m, r) \<Rightarrow> Some (c # m, r))
      else None)"

definition re_group :: "string list list \<Rightarrow> string \<Rightarrow> (string \<times> string) list" where
  "re_group alts s = List.map_filter (\<lambda>alt. match_classes alt s) alts"

definition py_int :: "string \<Rightarrow> nat" where
  "py_int s = foldl (\<lambda>n c. 10 * n + (of_char c - 48)) 0 (filter (\<lambda>c. c \<noteq> CHR '' '') s)"

definition d09 :: string where "d09 = ''0123456789''"
definition d19 :: string where "d19 = ''123456789''"

definition re_Y :: "string list list" where "re_Y = [[d09, d09, d09, d09]]"
definition re_m :: "string list list" where "re_m = [[''1'', ''012''], [''0'', d19], [d19]]"
definition re_d :: "string list list" where
  "re_d = [[''3'', ''01''], [''12'', d09], [''0'', d19], [d19], ['' '', d19]]"
definition re_H :: "string list list" where "re_H = [[''2'', ''0123''], [''01'', d09], [d09]]"
definition re_M :: "string list list" where "re_M = [[''012345'', d09], [d09]]"
definition re_S :: "string list list" where "re_S = [[''6'', ''01''], [''012345'', d09], [d09]]"

definition format_matches :: "string \<Rightarrow> (datetime \<times> string) list" where
  "format_matches s =
     [((py_int Y, py_int m, py_int d, py_int H, py_int M, py_int S), r7).
        (Y, r1) \<leftarrow> re_group re_Y s,
        (m, r2) \<leftarrow> re_group re_m r1,
        (d, r3) \<leftarrow> re_group re_d r2,
        (dash, r4) \<leftarrow> re_group [[''-'']] r3,
        (H, r5) \<leftarrow> re_group re_H r4,
        (M, r6) \<leftarrow> re_group re_M r5,
        (S, r7) \<leftarrow> re_group re_S r6]"

definition days_in_month :: "nat \<Rightarrow> nat \<Rightarrow> nat" where
  "days_in_month year month =
     (if month = 2 \<and> year mod 4 = 0 \<and> (year mod 400 = 0 \<or> year mod 100 \<noteq> 0) then 29
      else [31, 28, 31, 30, 31, 30, 31, 31, 30, 31, 30, 31] ! (month - 1))"

definition strptime_ascii :: "string \<Rightarrow> datetime option" where
  "strptime_ascii data_string =
     (case format_matches data_string of
        [] \<Rightarrow> None
      | ((year, month, day, hour, minute, second), rest) # _ \<Rightarrow>
          if rest \<noteq> [] then None
          else if year < 1 \<or> days_in_month year month < day \<or> 59 < second then None
          else Some (year, month, day, hour, minute, second))"

text \<open>
  The script's own \<^verbatim>\<open>REFERENCE_TIME\<close> (line 30) and the value of
  \<^verbatim>\<open>REFERENCE_TIME + TIME_LIMIT\<close>, three hours later (line 29).
\<close>

definition REFERENCE_TIME :: datetime where
  "REFERENCE_TIME = (2024, 7, 14, 18, 0, 0)"

definition script_cutoff :: datetime where
  "script_cutoff = (2024, 7, 14, 21, 0, 0)"

text \<open>
  A small file system: the directories that exist, each with the names of its entries,
  and the destinations that cannot be written. Creating a directory adds it with no
  entries; a copy needs its source to be listed and its destination to be writable, and
  lists the new file in the destination's directory.
\<close>

record fs_world =
  dirs :: "(string \<times> string list) list"
  write_protected :: "string list"

definition file_listed :: "fs_world \<Rightarrow> string \<Rightarrow> bool" where
  "file_listed w path =
     (case map_of (dirs w) (dirname path) of
        None \<Rightarrow> False
      | Some entries \<Rightarrow> basename path \<in> set entries)"

definition example_platform :: "(fs_world, datetime) platform" where
  "example_platform =
     \<lparr>path_exists = (\<lambda>w d. map_of (dirs w) d \<noteq> None),
      listdir = (\<lambda>w d. map_of (dirs w) d),
      makedirs = (\<lambda>w d. Some (if map_of (dirs w) d = None
                              then w\<lparr>dirs := dirs w @ [(d, [])]\<rparr> else w)),
      copy2 = (\<lambda>w src dst.
                 if file_listed w src \<and> dst \<notin> set (write_protected w)
                 then (True, w\<lparr>dirs := map (\<lambda>(d, entries).
                                              if d = dirname dst
                                              then (d, entries @ [basename dst])
                                              else (d, entries)) (dirs w)\<rparr>)
                 else (False, w)),
      breakpoint = (\<lambda>w. Some w),
      strptime = strptime_ascii\<rparr>"

definition example_config :: "datetime config" where
  "example_config =
     \<lparr>BACKUP_DIR = ''store'', RECOVERY_DIR = ''recovery'', CUTOFF = script_cutoff\<rparr>"

text \<open>
  Worlds for the examples. In the first the store holds three revisions of
  \<^verbatim>\<open>docs/notes.txt\<close>, the last one after the script's cutoff; the second is the
  same with the destination of that file unwritable; in the third one revision has a
  name whose timestamp cannot be read. The last configuration and world put the
  recovery tree inside the backup store.
\<close>

definition example_world :: fs_world where
  "example_world =
     \<lparr>dirs = [(''store/docs'',
               [''notes~20240714-120000.txt'', ''notes~20240714-190000.txt'',
                ''notes~20240715-030000.txt''])],
      write_protected = []\<rparr>"

definition protected_world :: fs_world where
  "protected_world = example_world\<lparr>write_protected := [''recovery/docs/notes.txt'']\<rparr>"

definition garbage_world :: fs_world where
  "garbage_world =
     \<lparr>dirs = [(''store/docs'', [''notes~20240714-120000.txt'', ''notes~garbage.txt''])],
      write_protected = []\<rparr>"

definition nested_config :: "datetime config" where
  "nested_config =
     \<lparr>BACKUP_DIR = ''store'', RECOVERY_DIR = ''store/a'', CUTOFF = script_cutoff\<rparr>"

definition nested_world :: fs_world where
  "nested_world =
     \<lparr>dirs = [(''store/b'', [''n~20240101-000000~20240102-000000.txt''])],
      write_protected = []\<rparr>"

text \<open>
  The three lists of a run's result, or the exception that ended the run.
\<close>

definition lists_of ::
  "error + ('w, 't) run_state \<Rightarrow>
     error + string list \<times> (string \<times> string \<times> 't option \<times> int \<times> bool \<times> string option \<times> 't option) list
               \<times> string list" where
  "lists_of r =
     (case r of
        Inl e \<Rightarrow> Inl e
      | Inr st \<Rightarrow> Inr (missing_files (results st), recovered_files (results st),
                      possibly_corrupted_files (results st)))"

text \<open>States that the example runs start from, pass through and end in.\<close>

definition garbage_reached :: "(fs_world, datetime) run_state" where
  "garbage_reached =
     \<lparr>world = garbage_world, calls = [Exists ''store/pics''],
      results =
        \<lparr>total_original = 3, total_missing = 0, total_recovered = 0,
         total_possibly_corrupted = 0,
         earliest_file_used = None, earliest_time_used = None,
         latest_file_used = None, latest_time_used = None,
         missing_files = [''pics/cat.png''], recovered_files = [],
         possibly_corrupted_files = []\<rparr>\<rparr>"

definition protected_made :: fs_world where
  "protected_made =
     \<lparr>dirs = [(''store/docs'',
               [''notes~20240714-120000.txt'', ''notes~20240714-190000.txt'',
                ''notes~20240715-030000.txt'']),
              (''recovery/docs'', [])],
      write_protected = [''recovery/docs/notes.txt'']\<rparr>"

definition protected_start :: "(fs_world, datetime) run_state" where
  "protected_start = initial_state protected_world [''docs/notes.txt'', ''docs/ghost.txt'']"

definition example_start :: "(fs_world, datetime) run_state" where
  "example_start = initial_state example_world [''pics/cat.png'']"

definition example_missing_state :: "(fs_world, datetime) run_state" where
  "example_missing_state =
     \<lparr>world = example_world, calls = [Exists ''store/pics''],
      results =
        \<lparr>total_original = 1, total_missing = 0, total_recovered = 0,
         total_possibly_corrupted = 0,
         earliest_file_used = None, earliest_time_used = None,
         latest_file_used = None, latest_time_used = None,
         missing_files = [''pics/cat.png''], recovered_files = [],
         possibly_corrupted_files = []\<rparr>\<rparr>"

definition example_final_state :: "(fs_world, datetime) run_state" where
  "example_final_state =
     \<lparr>world =
        \<lparr>dirs = [(''store/docs'',
                  [''notes~20240714-120000.txt'', ''notes~20240714-190000.txt'',
                   ''notes~20240715-030000.txt'']),
                 (''recovery/docs'', [''notes.txt''])],
         write_protected = []\<rparr>,
      calls =
        [Exists ''store/docs'', Listdir ''store/docs'', Makedirs ''recovery/docs'',
         Copy2 ''store/docs/notes~20240714-190000.txt'' ''recovery/docs/notes.txt'',
         Exists ''store/docs'', Listdir ''store/docs'',
         Exists ''store/pics''],
      results =
        \<lparr>total_original = 3, total_missing = 0, total_recovered = 0,
         total_possibly_corrupted = 0,
         earliest_file_used = None, earliest_time_used = None,
         latest_file_used = None, latest_time_used = None,
         missing_files = [''docs/ghost.txt'', ''pics/cat.png''],
         recovered_files =
           [(''docs/notes.txt'', ''notes~20240714-190000.txt'', Some (2024, 7, 14, 19, 0, 0),
             3, True, Some ''notes~20240715-030000.txt'', Some (2024, 7, 15, 3, 0, 0))],
         possibly_corrupted_files = []\<rparr>\<rparr>"


section \<open>Invariants of the two loops\<close>

text \<open>
  What holds of the record after the loop has seen the filenames \<open>seen\<close>, in that order:
  every one of them had a timestamp; \<open>latest_time\<close> is the greatest of the timestamps and
  \<open>backup_time\<close> the greatest of those up to the cutoff; each file slot holds the first
  filename seen with the slot's timestamp.
\<close>

definition selector_inv ::
  "(string \<Rightarrow> 't::linorder option) \<Rightarrow> 't \<Rightarrow> string list \<Rightarrow> 't BackupFileInfo \<Rightarrow> bool" where
  "selector_inv parse cutoff seen bak \<longleftrightarrow>
     (\<forall>g \<in> set seen. candidate_timestamp parse g \<noteq> None)
   \<and> ((latest_time bak = None) = (seen = []))
   \<and> (\<forall>t. latest_time bak = Some t \<longrightarrow> (\<exists>g \<in> set seen. candidate_timestamp parse g = Some t))
   \<and> (\<forall>g \<in> set seen. \<forall>u. candidate_timestamp parse g = Some u
         \<longrightarrow> (\<exists>t. latest_time bak = Some t \<and> u \<le> t))
   \<and> latest_file bak = find (\<lambda>g. candidate_timestamp parse g = latest_time bak) seen
   \<and> latest_outside_limit bak = (\<exists>t. latest_time bak = Some t \<and> \<not> t \<le> cutoff)
   \<and> (\<forall>t. backup_time bak = Some t
         \<longrightarrow> t \<le> cutoff \<and> (\<exists>g \<in> set seen. candidate_timestamp parse g = Some t))
   \<and> (\<forall>g \<in> set seen. \<forall>u. candidate_timestamp parse g = Some u \<and> u \<le> cutoff
         \<longrightarrow> (\<exists>t. backup_time bak = Some t \<and> u \<le> t))
   \<and> backup_file bak = find (\<lambda>g. candidate_timestamp parse g = backup_time bak) seen"

text \<open>
  The paths a result names, whether its missing list and its recovered list share none,
  and whether the fields that the loop never assigns still hold their initial values.
\<close>

definition named_files :: "'t FileRecoveryResult \<Rightarrow> string set" where
  "named_files r = set (missing_files r) \<union> fst ` set (recovered_files r)"

definition exclusive :: "'t FileRecoveryResult \<Rightarrow> bool" where
  "exclusive r \<longleftrightarrow> set (missing_files r) \<inter> fst ` set (recovered_files r) = {}"

definition untouched :: "'t FileRecoveryResult \<Rightarrow> bool" where
  "untouched r \<longleftrightarrow>
     total_missing r = 0 \<and> total_recovered r = 0 \<and> total_possibly_corrupted r = 0
   \<and> earliest_file_used r = None \<and> earliest_time_used r = None
   \<and> latest_file_used r = None \<and> latest_time_used r = None
   \<and> possibly_corrupted_files r = []"



section \<open>Facts about the string functions\<close>

lemma splitext_concat: "fst (splitext p) @ snd (splitext p) = p"
  by (simp add: splitext_def Let_def)

lemma splitext_no_ext: "snd (splitext p) = [] \<Longrightarrow> fst (splitext p) = p"
  using splitext_concat [of p] by simp

lemma split_str_nonempty: "split_str sep s \<noteq> []"
  by (induction s) (auto split: list.splits)


section \<open>Facts about the selector\<close>

lemma find_snoc:
  "find P (xs @ [y]) = (case find P xs of None \<Rightarrow> (if P y then Some y else None) | Some x \<Rightarrow> Some x)"
  by (induction xs) auto

lemma scan_candidates_snoc:
  "scan_candidates parse cutoff bak (files @ [file]) =
     (case scan_candidates parse cutoff bak files of
        Inl e \<Rightarrow> Inl e
      | Inr bak' \<Rightarrow> scan_candidate parse cutoff bak' file)"
  by (induction files arbitrary: bak) (auto split: sum.splits)

lemma selector_inv_init:
  "selector_inv parse cutoff [] (BackupFileInfo_init\<lparr>count := n\<rparr>)"
  by (simp add: selector_inv_def BackupFileInfo_init_def)

lemma scan_candidate_fields:
  assumes "scan_candidate parse cutoff bak file = Inr bak'"
  obtains ts where "candidate_timestamp parse file = Some ts"
    and "latest_time bak' =
          (if (case latest_time bak of None \<Rightarrow> True | Some t \<Rightarrow> t < ts) then Some ts else latest_time bak)"
    and "latest_file bak' =
          (if (case latest_time bak of None \<Rightarrow> True | Some t \<Rightarrow> t < ts) then Some file else latest_file bak)"
    and "latest_outside_limit bak' =
          (if (case latest_time bak of None \<Rightarrow> True | Some t \<Rightarrow> t < ts) then \<not> ts \<le> cutoff
           else latest_outside_limit bak)"
    and "backup_time bak' =
          (if ts \<le> cutoff \<and> (case backup_time bak of None \<Rightarrow> True | Some t \<Rightarrow> t < ts)
           then Some ts else backup_time bak)"
    and "backup_file bak' =
          (if ts \<le> cutoff \<and> (case backup_time bak of None \<Rightarrow> True | Some t \<Rightarrow> t < ts)
           then Some file else backup_file bak)"
    and "count bak' = count bak"
  using assms
  by (cases "candidate_timestamp parse file")
     (auto simp: scan_candidate_def Let_def split: if_splits)

lemma selector_inv_step:
  assumes inv: "selector_inv parse cutoff seen bak"
    and step: "scan_candidate parse cutoff bak file = Inr bak'"
  shows "selector_inv parse cutoff (seen @ [file]) bak'"
proof -
  from step obtain ts where ts: "candidate_timestamp parse file = Some ts"
    and lt: "latest_time bak' =
          (if (case latest_time bak of None \<Rightarrow> True | Some t \<Rightarrow> t < ts) then Some ts else latest_time bak)"
    and lf: "latest_file bak' =
          (if (case latest_time bak of None \<Rightarrow> True | Some t \<Rightarrow> t < ts) then Some file else latest_file bak)"
    and lo: "latest_outside_limit bak' =
          (if (case latest_time bak of None \<Rightarrow> True | Some t \<Rightarrow> t < ts) then \<not> ts \<le> cutoff
           else latest_outside_limit bak)"
    and bt: "backup_time bak' =
          (if ts \<le> cutoff \<and> (case backup_time bak of None \<Rightarrow> True | Some t \<Rightarrow> t < ts)
           then Some ts else backup_time bak)"
    and bf: "backup_file bak' =
          (if ts \<le> cutoff \<and> (case backup_time bak of None \<Rightarrow> True | Some t \<Rightarrow> t < ts)
           then Some file else backup_file bak)"
    by (rule scan_candidate_fields)
  note i = inv [unfolded selector_inv_def]
  have c1: "\<forall>g \<in> set (seen @ [file]). candidate_timestamp parse g \<noteq> None"
    using i ts by auto
  have c2: "(latest_time bak' = None) = (seen @ [file] = [])"
    using lt by (auto split: option.splits)
  have c3: "\<forall>t. latest_time bak' = Some t
              \<longrightarrow> (\<exists>g \<in> set (seen @ [file]). candidate_timestamp parse g = Some t)"
    using i ts lt by (auto split: if_splits)
  have c4: "\<forall>g \<in> set (seen @ [file]). \<forall>u. candidate_timestamp parse g = Some u
              \<longrightarrow> (\<exists>t. latest_time bak' = Some t \<and> u \<le> t)"
  proof (intro ballI allI impI)
    fix g u
    assume g: "g \<in> set (seen @ [file])" and u: "candidate_timestamp parse g = Some u"
    show "\<exists>t. latest_time bak' = Some t \<and> u \<le> t"
    proof (cases "g \<in> set seen")
      case True
      with i u obtain t0 where "latest_time bak = Some t0" "u \<le> t0" by blast
      then show ?thesis using lt by auto
    next
      case False
      with g ts u have "u = ts" by simp
      then show ?thesis using lt by (cases "latest_time bak") auto
    qed
  qed
  have c5: "latest_file bak' = find (\<lambda>g. candidate_timestamp parse g = latest_time bak') (seen @ [file])"
  proof (cases "case latest_time bak of None \<Rightarrow> True | Some t \<Rightarrow> t < ts")
    case True
    have "\<not> (\<exists>g. g \<in> set seen \<and> candidate_timestamp parse g = Some ts)"
    proof
      assume "\<exists>g. g \<in> set seen \<and> candidate_timestamp parse g = Some ts"
      then obtain g where "g \<in> set seen" "candidate_timestamp parse g = Some ts" by blast
      with i obtain t0 where "latest_time bak = Some t0" "ts \<le> t0" by blast
      with True show False by simp
    qed
    then have "find (\<lambda>g. candidate_timestamp parse g = Some ts) seen = None"
      by (simp add: find_None_iff)
    with True ts lt lf show ?thesis by (simp add: find_snoc)
  next
    case False
    then obtain t0 where t0: "latest_time bak = Some t0" by (cases "latest_time bak") auto
    with i obtain g where "g \<in> set seen" "candidate_timestamp parse g = Some t0" by blast
    then have "find (\<lambda>g. candidate_timestamp parse g = Some t0) seen \<noteq> None"
      by (auto simp: find_None_iff)
    moreover have "latest_file bak = find (\<lambda>g. candidate_timestamp parse g = Some t0) seen"
      using i t0 by simp
    ultimately show ?thesis using False t0 lt lf by (auto simp: find_snoc)
  qed
  have c6: "latest_outside_limit bak' = (\<exists>t. latest_time bak' = Some t \<and> \<not> t \<le> cutoff)"
    using i lt lo by (auto split: option.splits if_splits)
  have c7: "\<forall>t. backup_time bak' = Some t
         \<longrightarrow> t \<le> cutoff \<and> (\<exists>g \<in> set (seen @ [file]). candidate_timestamp parse g = Some t)"
    using i ts bt by (auto split: if_splits)
  have c8: "\<forall>g \<in> set (seen @ [file]). \<forall>u. candidate_timestamp parse g = Some u \<and> u \<le> cutoff
         \<longrightarrow> (\<exists>t. backup_time bak' = Some t \<and> u \<le> t)"
  proof (intro ballI allI impI)
    fix g u
    assume g: "g \<in> set (seen @ [file])"
      and u: "candidate_timestamp parse g = Some u \<and> u \<le> cutoff"
    show "\<exists>t. backup_time bak' = Some t \<and> u \<le> t"
    proof (cases "g \<in> set seen")
      case True
      with i u obtain t0 where "backup_time bak = Some t0" "u \<le> t0" by blast
      then show ?thesis using bt by auto
    next
      case False
      with g ts u have "u = ts" "ts \<le> cutoff" by simp_all
      then show ?thesis using bt by (cases "backup_time bak") auto
    qed
  qed
  have c9: "backup_file bak' = find (\<lambda>g. candidate_timestamp parse g = backup_time bak') (seen @ [file])"
  proof (cases "ts \<le> cutoff \<and> (case backup_time bak of None \<Rightarrow> True | Some t \<Rightarrow> t < ts)")
    case True
    have "\<not> (\<exists>g. g \<in> set seen \<and> candidate_timestamp parse g = Some ts)"
    proof
      assume "\<exists>g. g \<in> set seen \<and> candidate_timestamp parse g = Some ts"
      then obtain g where "g \<in> set seen" "candidate_timestamp parse g = Some ts" by blast
      with i True obtain t0 where "backup_time bak = Some t0" "ts \<le> t0" by blast
      with True show False by auto
    qed
    then have "find (\<lambda>g. candidate_timestamp parse g = Some ts) seen = None"
      by (simp add: find_None_iff)
    with True ts bt bf show ?thesis by (simp add: find_snoc)
  next
    case False
    have same: "backup_time bak' = backup_time bak" "backup_file bak' = backup_file bak"
      using False bt bf by auto
    have old: "backup_file bak = find (\<lambda>g. candidate_timestamp parse g = backup_time bak) seen"
      using i by simp
    show ?thesis
    proof (cases "backup_time bak")
      case None
      with same old ts show ?thesis by (simp add: find_snoc split: option.splits)
    next
      case (Some t0)
      with i obtain g where "g \<in> set seen" "candidate_timestamp parse g = Some t0" by blast
      then have "find (\<lambda>g. candidate_timestamp parse g = Some t0) seen \<noteq> None"
        by (auto simp: find_None_iff)
      with same old Some show ?thesis by (auto simp: find_snoc)
    qed
  qed
  show ?thesis
    unfolding selector_inv_def using c1 c2 c3 c4 c5 c6 c7 c8 c9 by blast
qed

lemma scan_candidates_inv:
  "selector_inv parse cutoff [] bak0 \<Longrightarrow> scan_candidates parse cutoff bak0 files = Inr bak
     \<Longrightarrow> selector_inv parse cutoff files bak"
proof (induction files arbitrary: bak rule: rev_induct)
  case Nil
  then show ?case by simp
next
  case (snoc f fs)
  from snoc.prems(2) obtain mid where mid: "scan_candidates parse cutoff bak0 fs = Inr mid"
    and last: "scan_candidate parse cutoff mid f = Inr bak"
    by (auto simp: scan_candidates_snoc split: sum.splits)
  from snoc.IH [OF snoc.prems(1) mid] last show ?case
    by (rule selector_inv_step)
qed

lemma get_backup_file_info_inv:
  "get_backup_file_info parse cutoff backup_files = Inr bak
     \<Longrightarrow> selector_inv parse cutoff backup_files bak"
  unfolding get_backup_file_info_def
  by (rule scan_candidates_inv [OF selector_inv_init])

lemma scan_candidates_count:
  "scan_candidates parse cutoff bak0 files = Inr bak \<Longrightarrow> count bak = count bak0"
proof (induction files arbitrary: bak0)
  case Nil
  then show ?case by simp
next
  case (Cons f fs)
  then show ?case
    by (auto split: sum.splits elim: scan_candidate_fields)
qed

lemma scan_candidates_parsable:
  "\<forall>g \<in> set files. candidate_timestamp parse g \<noteq> None
     \<Longrightarrow> \<exists>bak'. scan_candidates parse cutoff bak files = Inr bak'"
proof (induction files arbitrary: bak)
  case Nil
  then show ?case by simp
next
  case (Cons f fs)
  then obtain ts where "candidate_timestamp parse f = Some ts" by auto
  then obtain mid where "scan_candidate parse cutoff bak f = Inr mid"
    by (simp add: scan_candidate_def Let_def)
  with Cons show ?case by simp
qed

lemma get_backup_file_info_returns:
  "\<forall>g \<in> set backup_files. candidate_timestamp parse g \<noteq> None
     \<Longrightarrow> \<exists>bak. get_backup_file_info parse cutoff backup_files = Inr bak"
  unfolding get_backup_file_info_def by (rule scan_candidates_parsable)


section \<open>Facts about the orchestrator\<close>

lemma get_backup_file_info_Nil:
  "get_backup_file_info parse cutoff [] = Inr (BackupFileInfo_init\<lparr>count := 0\<rparr>)"
  by (simp add: get_backup_file_info_def)

lemma scan_candidate_error:
  "scan_candidate parse cutoff bak f = Inl e \<Longrightarrow> e = ValueError"
  by (auto simp: scan_candidate_def Let_def split: option.splits if_splits)

lemma scan_candidates_unparsable:
  "g \<in> set files \<Longrightarrow> candidate_timestamp parse g = None
     \<Longrightarrow> scan_candidates parse cutoff bak files = Inl ValueError"
proof (induction files arbitrary: bak)
  case Nil
  then show ?case by simp
next
  case (Cons f fs)
  show ?case
  proof (cases "scan_candidate parse cutoff bak f")
    case (Inl e)
    then show ?thesis by (simp add: scan_candidate_error)
  next
    case (Inr bak')
    then have "candidate_timestamp parse f \<noteq> None"
      by (auto simp: scan_candidate_def split: option.splits)
    with Cons.prems have "g \<in> set fs" by auto
    with Cons.IH Cons.prems(2) Inr show ?thesis by simp
  qed
qed

lemma process_files_append:
  "process_files p cfg st (xs @ ys) =
     (case process_files p cfg st xs of
        Inl e \<Rightarrow> Inl e
      | Inr st' \<Rightarrow> process_files p cfg st' ys)"
  by (induction xs arbitrary: st) (auto split: sum.splits)

lemma copy_backup_results:
  assumes "copy_backup p cfg st file backup_info chosen = Inr st'"
  shows "results st' = results st
       \<or> (\<exists>row. fst row = file
            \<and> results st' = (results st)\<lparr>recovered_files := recovered_files (results st) @ [row]\<rparr>)"
proof (cases "ensure_directory_exists p (world st) (dirname (recovery_path cfg file))")
  case None
  with assms show ?thesis by (simp add: copy_backup_def Let_def)
next
  case (Some w1)
  obtain copied w2
    where c: "copy2 p w1 (backup_path cfg file chosen) (recovery_path cfg file) = (copied, w2)"
    by (cases "copy2 p w1 (backup_path cfg file chosen) (recovery_path cfg file)")
  show ?thesis
  proof (cases copied)
    case True
    with assms Some c have "results st' = (results st)
        \<lparr>recovered_files := recovered_files (results st) @
           [(file, chosen, backup_time backup_info, count backup_info,
             latest_outside_limit backup_info, latest_file backup_info,
             latest_time backup_info)]\<rparr>"
      by (auto simp: copy_backup_def Let_def called_def add_recovered_def)
    then show ?thesis by (intro disjI2 exI conjI) (auto simp: fst_def)
  next
    case False
    with assms Some c show ?thesis
      by (auto simp: copy_backup_def Let_def called_def)
  qed
qed

lemma process_file_results:
  assumes "process_file p cfg st file = Inr st'"
  shows "results st' = results st
       \<or> results st' = (results st)\<lparr>missing_files := missing_files (results st) @ [file]\<rparr>
       \<or> (\<exists>row. fst row = file
            \<and> results st' = (results st)\<lparr>recovered_files := recovered_files (results st) @ [row]\<rparr>)"
proof -
  let ?dir = "backup_dir_path cfg file"
  show ?thesis
  proof (cases "path_exists p (world st) ?dir")
    case False
    with assms show ?thesis
      by (auto simp: process_file_def Let_def called_def add_missing_def)
  next
    case True
    show ?thesis
    proof (cases "listdir p (world st) ?dir")
      case None
      with True assms show ?thesis by (simp add: process_file_def Let_def)
    next
      case (Some entries)
      show ?thesis
      proof (cases "matching_backups file entries = []")
        case True
        with \<open>path_exists p (world st) ?dir\<close> Some assms show ?thesis
          by (auto simp: process_file_def Let_def called_def add_missing_def)
      next
        case False
        show ?thesis
        proof (cases "get_backup_file_info (strptime p) (CUTOFF cfg) (matching_backups file entries)")
          case (Inl e)
          with False \<open>path_exists p (world st) ?dir\<close> Some assms show ?thesis
            by (simp add: process_file_def Let_def)
        next
          case (Inr bak)
          show ?thesis
          proof (cases "backup_file bak")
            case None
            with Inr False \<open>path_exists p (world st) ?dir\<close> Some assms show ?thesis
              by (auto simp: process_file_def Let_def called_def add_missing_def
                       split: option.splits)
          next
            case (Some chosen)
            with Inr False \<open>path_exists p (world st) ?dir\<close> \<open>listdir p (world st) ?dir = Some entries\<close> assms
            have "copy_backup p cfg (called (Listdir ?dir) (called (Exists ?dir) st))
                    file bak chosen = Inr st'"
              by (simp add: process_file_def Let_def)
            from copy_backup_results [OF this]
            have "results st' = results st
                \<or> (\<exists>row. fst row = file
                     \<and> results st' =
                         (results st)\<lparr>recovered_files := recovered_files (results st) @ [row]\<rparr>)"
              by (simp add: called_def)
            then show ?thesis by blast
          qed
        qed
      qed
    qed
  qed
qed

lemma process_file_exclusive:
  assumes "process_file p cfg st f = Inr st'"
    and "exclusive (results st)" and "f \<notin> named_files (results st)"
  shows "exclusive (results st') \<and> named_files (results st') \<subseteq> insert f (named_files (results st))"
proof -
  define M where "M = set (missing_files (results st))"
  define R where "R = fst ` set (recovered_files (results st))"
  define M' where "M' = set (missing_files (results st'))"
  define R' where "R' = fst ` set (recovered_files (results st'))"
  from assms(2,3) have d: "M \<inter> R = {}" and fM: "f \<notin> M" and fR: "f \<notin> R"
    by (simp_all add: exclusive_def named_files_def M_def R_def)
  have cases: "(M' = M \<and> R' = R) \<or> (M' = insert f M \<and> R' = R) \<or> (M' = M \<and> R' = insert f R)"
  proof -
    from process_file_results [OF assms(1)]
    consider (same) "results st' = results st"
      | (miss) "results st' = (results st)\<lparr>missing_files := missing_files (results st) @ [f]\<rparr>"
      | (rec) row where "fst row = f"
          "results st' = (results st)\<lparr>recovered_files := recovered_files (results st) @ [row]\<rparr>"
      by blast
    then show ?thesis
    proof cases
      case same
      then show ?thesis by (simp add: M_def R_def M'_def R'_def)
    next
      case miss
      then show ?thesis by (simp add: M_def R_def M'_def R'_def)
    next
      case rec
      then show ?thesis by (simp add: M_def R_def M'_def R'_def)
    qed
  qed
  have "M' \<inter> R' = {} \<and> M' \<union> R' \<subseteq> insert f (M \<union> R)"
    using cases d fM fR by blast
  then show ?thesis
    by (simp add: exclusive_def named_files_def M_def R_def M'_def R'_def)
qed

lemma process_files_exclusive:
  assumes "process_files p cfg st fs = Inr st'"
    and "exclusive (results st)" and "distinct fs"
    and "set fs \<inter> named_files (results st) = {}"
  shows "exclusive (results st') \<and> named_files (results st') \<subseteq> set fs \<union> named_files (results st)"
  using assms
proof (induction fs arbitrary: st)
  case Nil
  then show ?case by simp
next
  case (Cons f fs)
  from Cons.prems(1) obtain mid where mid: "process_file p cfg st f = Inr mid"
    and rest: "process_files p cfg mid fs = Inr st'"
    by (cases "process_file p cfg st f") simp_all
  from Cons.prems(4) have fresh: "f \<notin> named_files (results st)" by simp
  from process_file_exclusive [OF mid Cons.prems(2) fresh]
  have e: "exclusive (results mid)"
    and n: "named_files (results mid) \<subseteq> insert f (named_files (results st))"
    by blast+
  from Cons.prems(3) have dfs: "distinct fs" and fnot: "f \<notin> set fs" by simp_all
  from Cons.prems(4) have "set fs \<inter> named_files (results st) = {}" by auto
  with n fnot have disj: "set fs \<inter> named_files (results mid) = {}" by blast
  from Cons.IH [OF rest e dfs disj]
  have "exclusive (results st')"
    and "named_files (results st') \<subseteq> set fs \<union> named_files (results mid)"
    by blast+
  with n show ?case by auto
qed

lemma initial_state_exclusive:
  "exclusive (results (initial_state w all_files))"
  "named_files (results (initial_state w all_files)) = {}"
  by (simp_all add: exclusive_def named_files_def initial_state_def FileRecoveryResult_init_def)

lemma process_file_untouched:
  "process_file p cfg st f = Inr st' \<Longrightarrow> untouched (results st) \<Longrightarrow> untouched (results st')"
  using process_file_results [of p cfg st f st'] by (auto simp: untouched_def)

lemma process_file_total_original:
  "process_file p cfg st f = Inr st' \<Longrightarrow> total_original (results st') = total_original (results st)"
  using process_file_results [of p cfg st f st'] by auto

lemma process_files_untouched:
  "process_files p cfg st fs = Inr st' \<Longrightarrow> untouched (results st) \<Longrightarrow> untouched (results st')"
proof (induction fs arbitrary: st)
  case Nil
  then show ?case by simp
next
  case (Cons f fs)
  then show ?case by (auto split: sum.splits dest: process_file_untouched)
qed

lemma process_files_total_original:
  "process_files p cfg st fs = Inr st' \<Longrightarrow> total_original (results st') = total_original (results st)"
proof (induction fs arbitrary: st)
  case Nil
  then show ?case by simp
next
  case (Cons f fs)
  then show ?case by (auto split: sum.splits dest: process_file_total_original)
qed


section \<open>The script on its own examples\<close>

lemma example_selection:
  "get_backup_file_info strptime_ascii script_cutoff
     [''notes~20240714-120000.txt'', ''notes~20240714-190000.txt'',
      ''notes~20240715-030000.txt'']
   = Inr \<lparr>count = 3,
          latest_time = Some (2024, 7, 15, 3, 0, 0),
          latest_file = Some ''notes~20240715-030000.txt'',
          latest_outside_limit = True,
          backup_file = Some ''notes~20240714-190000.txt'',
          backup_time = Some (2024, 7, 14, 19, 0, 0)\<rparr>"
  by code_simp

lemma example_tie:
  "get_backup_file_info strptime_ascii script_cutoff
     [''notes~20240714-120000.txt'', ''notes~x~20240714-120000.txt'']
   = Inr \<lparr>count = 2,
          latest_time = Some (2024, 7, 14, 12, 0, 0),
          latest_file = Some ''notes~20240714-120000.txt'',
          latest_outside_limit = False,
          backup_file = Some ''notes~20240714-120000.txt'',
          backup_time = Some (2024, 7, 14, 12, 0, 0)\<rparr>"
  by code_simp

lemma example_timestamps:
  "candidate_timestamp strptime_ascii ''notes~20240714-120000.txt'' = Some (2024, 7, 14, 12, 0, 0)"
  "candidate_timestamp strptime_ascii ''notes~20240714-190000.txt'' = Some (2024, 7, 14, 19, 0, 0)"
  "candidate_timestamp strptime_ascii ''notes~20240715-030000.txt'' = Some (2024, 7, 15, 3, 0, 0)"
  "candidate_timestamp strptime_ascii ''notes~x~20240714-120000.txt'' = Some (2024, 7, 14, 12, 0, 0)"
  "candidate_timestamp strptime_ascii ''notes~garbage.txt'' = None"
  by code_simp+

lemma example_run:
  "find_and_copy_backup example_platform example_config example_world
     [''docs/notes.txt'', ''docs/ghost.txt'', ''pics/cat.png''] = Inr example_final_state"
  by code_simp


section \<open>The codec's dotfile rule\<close>

text \<open>
  C8. When the library's split of a filename has an empty extension and a name that
  starts with a dot, \<open>split_extension\<close> returns the empty base and the whole filename
  as the extension; for every other filename it returns the library's split as it is.
\<close>

theorem split_extension_dotfile_rule:
  "(snd (splitext filename) = [] \<and> startswith (fst (splitext filename)) ''.''
      \<longrightarrow> split_extension filename = ([], filename))
   \<and> (\<not> (snd (splitext filename) = [] \<and> startswith (fst (splitext filename)) ''.'')
      \<longrightarrow> split_extension filename = splitext filename)"
proof (cases "snd (splitext filename) = [] \<and> startswith (fst (splitext filename)) ''.''")
  case True
  then have "fst (splitext filename) = filename"
    by (simp add: splitext_no_ext)
  with True show ?thesis
    by (simp add: split_extension_def case_prod_beta)
next
  case False
  then show ?thesis
    by (auto simp: split_extension_def case_prod_beta)
qed

theorem split_extension_dotfile_rule_witness:
  "snd (splitext ''.gitignore'') = [] \<and> startswith (fst (splitext ''.gitignore'')) ''.''
   \<and> split_extension ''.gitignore'' = ([], ''.gitignore'')
   \<and> \<not> (snd (splitext ''notes.txt'') = [] \<and> startswith (fst (splitext ''notes.txt'')) ''.'')
   \<and> split_extension ''notes.txt'' = (''notes'', ''.txt'')"
proof -
  have a: "splitext ''.gitignore'' = (''.gitignore'', [])"
    by (simp add: splitext_def)
  have b: "splitext ''notes.txt'' = (''notes'', ''.txt'')"
    by (simp add: splitext_def)
  show ?thesis
    using split_extension_dotfile_rule [of "''.gitignore''"]
          split_extension_dotfile_rule [of "''notes.txt''"]
    by (simp add: a b startswith_def)
qed


section \<open>The selector's choices\<close>

text \<open>
  C2. Whenever \<open>get_backup_file_info\<close> returns with a chosen backup file, that file is
  one of the candidates, its timestamp is the recorded \<open>backup_time\<close>, that timestamp
  is at most the cutoff (the comparison is inclusive), and no candidate with a timestamp
  at most the cutoff has a greater one.
\<close>

theorem chosen_is_latest_within_cutoff:
  assumes "get_backup_file_info parse cutoff backup_files = Inr bak"
    and "backup_file bak = Some chosen"
  shows "chosen \<in> set backup_files
       \<and> (\<exists>t. backup_time bak = Some t \<and> candidate_timestamp parse chosen = Some t
              \<and> t \<le> cutoff
              \<and> (\<forall>g \<in> set backup_files. \<forall>u.
                    candidate_timestamp parse g = Some u \<and> u \<le> cutoff \<longrightarrow> u \<le> t))"
proof -
  note i = get_backup_file_info_inv [OF assms(1), unfolded selector_inv_def]
  from i assms(2)
  have f: "find (\<lambda>g. candidate_timestamp parse g = backup_time bak) backup_files = Some chosen"
    by simp
  then have mem: "chosen \<in> set backup_files"
    and eq: "candidate_timestamp parse chosen = backup_time bak"
    by (auto simp: find_Some_iff)
  from i mem have "candidate_timestamp parse chosen \<noteq> None" by blast
  with eq obtain t where t: "backup_time bak = Some t" by (cases "backup_time bak") auto
  from i t have "t \<le> cutoff" by blast
  moreover have "\<forall>g \<in> set backup_files. \<forall>u.
      candidate_timestamp parse g = Some u \<and> u \<le> cutoff \<longrightarrow> u \<le> t"
    using i t by fastforce
  ultimately show ?thesis using mem eq t by simp
qed

theorem chosen_is_latest_within_cutoff_witness:
  "get_backup_file_info strptime_ascii script_cutoff
     [''notes~20240714-120000.txt'', ''notes~20240714-190000.txt'',
      ''notes~20240715-030000.txt'']
   = Inr \<lparr>count = 3,
          latest_time = Some (2024, 7, 15, 3, 0, 0),
          latest_file = Some ''notes~20240715-030000.txt'',
          latest_outside_limit = True,
          backup_file = Some ''notes~20240714-190000.txt'',
          backup_time = Some (2024, 7, 14, 19, 0, 0)\<rparr>
   \<and> candidate_timestamp strptime_ascii ''notes~20240714-190000.txt''
       = Some (2024, 7, 14, 19, 0, 0)
   \<and> (2024, 7, 14, 19, 0, 0) \<le> script_cutoff
   \<and> candidate_timestamp strptime_ascii ''notes~20240714-120000.txt''
       = Some (2024, 7, 14, 12, 0, 0)
   \<and> ((2024, 7, 14, 12, 0, 0) :: datetime) \<le> (2024, 7, 14, 19, 0, 0)
   \<and> \<not> (2024, 7, 15, 3, 0, 0) \<le> script_cutoff"
proof -
  have late: "\<not> (2024, 7, 15, 3, 0, 0) \<le> script_cutoff"
    by (simp add: script_cutoff_def)
  from chosen_is_latest_within_cutoff [OF example_selection, of "''notes~20240714-190000.txt''"]
  have "(2024, 7, 14, 19, 0, 0) \<le> script_cutoff
      \<and> (\<forall>g \<in> set [''notes~20240714-120000.txt'', ''notes~20240714-190000.txt'',
                       ''notes~20240715-030000.txt'']. \<forall>u.
            candidate_timestamp strptime_ascii g = Some u \<and> u \<le> script_cutoff
              \<longrightarrow> u \<le> (2024, 7, 14, 19, 0, 0))"
    by simp
  then show ?thesis
    using example_selection example_timestamps late by simp
qed

text \<open>
  C6. When every candidate's timestamp parses, \<open>get_backup_file_info\<close> returns. For an
  empty list both latest slots stay undefined. For a non-empty list both latest slots
  are defined: the latest file is a candidate of the list, its timestamp is the latest
  timestamp, and no candidate of the list has a greater timestamp. Whenever the chosen
  timestamp is defined, so is the latest one, and it is at least the chosen one.
\<close>

theorem latest_is_maximum:
  assumes "\<forall>g \<in> set backup_files. candidate_timestamp parse g \<noteq> None"
  shows "\<exists>bak. get_backup_file_info parse cutoff backup_files = Inr bak
       \<and> (backup_files = [] \<longrightarrow> latest_file bak = None \<and> latest_time bak = None)
       \<and> (backup_files \<noteq> [] \<longrightarrow>
            (\<exists>l tl. latest_file bak = Some l \<and> latest_time bak = Some tl
                  \<and> l \<in> set backup_files \<and> candidate_timestamp parse l = Some tl
                  \<and> (\<forall>g \<in> set backup_files. \<forall>u.
                        candidate_timestamp parse g = Some u \<longrightarrow> u \<le> tl)))
       \<and> (\<forall>t. backup_time bak = Some t \<longrightarrow> (\<exists>tl. latest_time bak = Some tl \<and> t \<le> tl))"
proof -
  from get_backup_file_info_returns [OF assms]
  obtain bak where r: "get_backup_file_info parse cutoff backup_files = Inr bak" by blast
  note i = get_backup_file_info_inv [OF r, unfolded selector_inv_def]
  have a: "backup_files = [] \<longrightarrow> latest_file bak = None \<and> latest_time bak = None"
    using i by auto
  have b: "backup_files \<noteq> [] \<longrightarrow>
            (\<exists>l tl. latest_file bak = Some l \<and> latest_time bak = Some tl
                  \<and> l \<in> set backup_files \<and> candidate_timestamp parse l = Some tl
                  \<and> (\<forall>g \<in> set backup_files. \<forall>u.
                        candidate_timestamp parse g = Some u \<longrightarrow> u \<le> tl))"
  proof
    assume ne: "backup_files \<noteq> []"
    with i obtain tl where tl: "latest_time bak = Some tl" by auto
    with i obtain g where "g \<in> set backup_files" "candidate_timestamp parse g = Some tl"
      by blast
    then have "find (\<lambda>g. candidate_timestamp parse g = Some tl) backup_files \<noteq> None"
      by (auto simp: find_None_iff)
    then obtain l where l: "find (\<lambda>g. candidate_timestamp parse g = Some tl) backup_files = Some l"
      by auto
    then have lm: "l \<in> set backup_files" and lt: "candidate_timestamp parse l = Some tl"
      by (auto simp: find_Some_iff)
    from i tl l have lf: "latest_file bak = Some l" by simp
    have mx: "\<forall>g \<in> set backup_files. \<forall>u. candidate_timestamp parse g = Some u \<longrightarrow> u \<le> tl"
      using i tl by fastforce
    from lf tl lm lt mx
    show "\<exists>l tl. latest_file bak = Some l \<and> latest_time bak = Some tl
                  \<and> l \<in> set backup_files \<and> candidate_timestamp parse l = Some tl
                  \<and> (\<forall>g \<in> set backup_files. \<forall>u.
                        candidate_timestamp parse g = Some u \<longrightarrow> u \<le> tl)"
      by blast
  qed
  have c: "\<forall>t. backup_time bak = Some t \<longrightarrow> (\<exists>tl. latest_time bak = Some tl \<and> t \<le> tl)"
  proof (intro allI impI)
    fix t
    assume "backup_time bak = Some t"
    with i obtain g where "g \<in> set backup_files" "candidate_timestamp parse g = Some t"
      by blast
    with i show "\<exists>tl. latest_time bak = Some tl \<and> t \<le> tl" by blast
  qed
  from r a b c show ?thesis by blast
qed

theorem latest_is_maximum_witness:
  "candidate_timestamp strptime_ascii ''notes~20240714-120000.txt'' \<noteq> None
   \<and> candidate_timestamp strptime_ascii ''notes~20240714-190000.txt'' \<noteq> None
   \<and> candidate_timestamp strptime_ascii ''notes~20240715-030000.txt'' \<noteq> None
   \<and> get_backup_file_info strptime_ascii script_cutoff
        [''notes~20240714-120000.txt'', ''notes~20240714-190000.txt'',
         ''notes~20240715-030000.txt'']
       = Inr \<lparr>count = 3,
              latest_time = Some (2024, 7, 15, 3, 0, 0),
              latest_file = Some ''notes~20240715-030000.txt'',
              latest_outside_limit = True,
              backup_file = Some ''notes~20240714-190000.txt'',
              backup_time = Some (2024, 7, 14, 19, 0, 0)\<rparr>
   \<and> candidate_timestamp strptime_ascii ''notes~20240715-030000.txt''
       = Some (2024, 7, 15, 3, 0, 0)
   \<and> ((2024, 7, 14, 19, 0, 0) :: datetime) \<le> (2024, 7, 15, 3, 0, 0)
   \<and> ((2024, 7, 14, 12, 0, 0) :: datetime) \<le> (2024, 7, 15, 3, 0, 0)"
proof -
  have h: "\<forall>g \<in> set [''notes~20240714-120000.txt'', ''notes~20240714-190000.txt'',
                       ''notes~20240715-030000.txt''].
             candidate_timestamp strptime_ascii g \<noteq> None"
    by (simp add: example_timestamps)
  from latest_is_maximum [OF h, of script_cutoff]
  obtain bak where b: "get_backup_file_info strptime_ascii script_cutoff
        [''notes~20240714-120000.txt'', ''notes~20240714-190000.txt'',
         ''notes~20240715-030000.txt''] = Inr bak"
    by blast
  with example_selection have "bak = \<lparr>count = 3,
              latest_time = Some (2024, 7, 15, 3, 0, 0),
              latest_file = Some ''notes~20240715-030000.txt'',
              latest_outside_limit = True,
              backup_file = Some ''notes~20240714-190000.txt'',
              backup_time = Some (2024, 7, 14, 19, 0, 0)\<rparr>"
    by simp
  with b show ?thesis
    by (simp add: example_timestamps)
qed

text \<open>
  C5 as stated fails: of two candidates with the same timestamp, the greatest of all,
  the one met last is not the one retained. The loop replaces a slot only on a strictly
  greater timestamp (lines 128 and 134), so the first one met stays.
\<close>

theorem tie_keeps_last_seen_counterexample:
  "candidate_timestamp strptime_ascii ''notes~20240714-120000.txt''
     = candidate_timestamp strptime_ascii ''notes~x~20240714-120000.txt''
   \<and> get_backup_file_info strptime_ascii script_cutoff
       [''notes~20240714-120000.txt'', ''notes~x~20240714-120000.txt'']
     = Inr \<lparr>count = 2,
            latest_time = Some (2024, 7, 14, 12, 0, 0),
            latest_file = Some ''notes~20240714-120000.txt'',
            latest_outside_limit = False,
            backup_file = Some ''notes~20240714-120000.txt'',
            backup_time = Some (2024, 7, 14, 12, 0, 0)\<rparr>"
  using example_tie example_timestamps by simp

text \<open>
  C5, amended. When every candidate's timestamp parses, \<open>get_backup_file_info\<close>
  returns, and of several candidates sharing the greatest timestamp the first one met
  is retained. For a non-empty list the latest slot is defined and holds the candidate
  at the first position of the list that carries the greatest timestamp of all
  candidates. When some candidate lies within the cutoff, the chosen slot is defined
  and holds the candidate at the first position that carries the greatest timestamp
  within the cutoff.
\<close>

theorem tie_keeps_first_seen:
  assumes "\<forall>g \<in> set backup_files. candidate_timestamp parse g \<noteq> None"
  shows "\<exists>bak. get_backup_file_info parse cutoff backup_files = Inr bak
       \<and> (backup_files \<noteq> [] \<longrightarrow>
            (\<exists>i tl. i < length backup_files
                  \<and> latest_file bak = Some (backup_files ! i) \<and> latest_time bak = Some tl
                  \<and> candidate_timestamp parse (backup_files ! i) = Some tl
                  \<and> (\<forall>g \<in> set backup_files. \<forall>u.
                        candidate_timestamp parse g = Some u \<longrightarrow> u \<le> tl)
                  \<and> (\<forall>j<i. candidate_timestamp parse (backup_files ! j) \<noteq> Some tl)))
       \<and> ((\<exists>g \<in> set backup_files. \<exists>u. candidate_timestamp parse g = Some u \<and> u \<le> cutoff) \<longrightarrow>
            (\<exists>i t. i < length backup_files
                  \<and> backup_file bak = Some (backup_files ! i) \<and> backup_time bak = Some t
                  \<and> candidate_timestamp parse (backup_files ! i) = Some t \<and> t \<le> cutoff
                  \<and> (\<forall>g \<in> set backup_files. \<forall>u.
                        candidate_timestamp parse g = Some u \<and> u \<le> cutoff \<longrightarrow> u \<le> t)
                  \<and> (\<forall>j<i. candidate_timestamp parse (backup_files ! j) \<noteq> Some t)))"
proof -
  from get_backup_file_info_returns [OF assms]
  obtain bak where r: "get_backup_file_info parse cutoff backup_files = Inr bak" by blast
  note i = get_backup_file_info_inv [OF r, unfolded selector_inv_def]
  have first: "\<exists>k. k < length backup_files \<and> slot = Some (backup_files ! k)
                 \<and> candidate_timestamp parse (backup_files ! k) = Some t
                 \<and> (\<forall>j<k. candidate_timestamp parse (backup_files ! j) \<noteq> Some t)"
    if s: "slot = find (\<lambda>g. candidate_timestamp parse g = Some t) backup_files"
      and e: "\<exists>g \<in> set backup_files. candidate_timestamp parse g = Some t" for slot t
  proof -
    from e have "find (\<lambda>g. candidate_timestamp parse g = Some t) backup_files \<noteq> None"
      by (auto simp: find_None_iff)
    then obtain x where x: "find (\<lambda>g. candidate_timestamp parse g = Some t) backup_files = Some x"
      by auto
    then obtain k where "k < length backup_files"
      "candidate_timestamp parse (backup_files ! k) = Some t" "x = backup_files ! k"
      "\<forall>j<k. candidate_timestamp parse (backup_files ! j) \<noteq> Some t"
      unfolding find_Some_iff by blast
    with s x show ?thesis by auto
  qed
  have a: "backup_files \<noteq> [] \<longrightarrow>
            (\<exists>i tl. i < length backup_files
                  \<and> latest_file bak = Some (backup_files ! i) \<and> latest_time bak = Some tl
                  \<and> candidate_timestamp parse (backup_files ! i) = Some tl
                  \<and> (\<forall>g \<in> set backup_files. \<forall>u.
                        candidate_timestamp parse g = Some u \<longrightarrow> u \<le> tl)
                  \<and> (\<forall>j<i. candidate_timestamp parse (backup_files ! j) \<noteq> Some tl))"
  proof
    assume "backup_files \<noteq> []"
    with i obtain tl where tl: "latest_time bak = Some tl" by auto
    from i tl have s: "latest_file bak = find (\<lambda>g. candidate_timestamp parse g = Some tl) backup_files"
      by simp
    from i tl have e: "\<exists>g \<in> set backup_files. candidate_timestamp parse g = Some tl" by blast
    have mx: "\<forall>g \<in> set backup_files. \<forall>u. candidate_timestamp parse g = Some u \<longrightarrow> u \<le> tl"
      using i tl by fastforce
    from first [OF s e] tl mx
    show "\<exists>i tl. i < length backup_files
                  \<and> latest_file bak = Some (backup_files ! i) \<and> latest_time bak = Some tl
                  \<and> candidate_timestamp parse (backup_files ! i) = Some tl
                  \<and> (\<forall>g \<in> set backup_files. \<forall>u.
                        candidate_timestamp parse g = Some u \<longrightarrow> u \<le> tl)
                  \<and> (\<forall>j<i. candidate_timestamp parse (backup_files ! j) \<noteq> Some tl)"
      by blast
  qed
  have b: "(\<exists>g \<in> set backup_files. \<exists>u. candidate_timestamp parse g = Some u \<and> u \<le> cutoff) \<longrightarrow>
            (\<exists>i t. i < length backup_files
                  \<and> backup_file bak = Some (backup_files ! i) \<and> backup_time bak = Some t
                  \<and> candidate_timestamp parse (backup_files ! i) = Some t \<and> t \<le> cutoff
                  \<and> (\<forall>g \<in> set backup_files. \<forall>u.
                        candidate_timestamp parse g = Some u \<and> u \<le> cutoff \<longrightarrow> u \<le> t)
                  \<and> (\<forall>j<i. candidate_timestamp parse (backup_files ! j) \<noteq> Some t))"
  proof
    assume "\<exists>g \<in> set backup_files. \<exists>u. candidate_timestamp parse g = Some u \<and> u \<le> cutoff"
    then obtain g u where "g \<in> set backup_files" "candidate_timestamp parse g = Some u \<and> u \<le> cutoff"
      by blast
    with i obtain t where t: "backup_time bak = Some t" by blast
    from i t have s: "backup_file bak = find (\<lambda>g. candidate_timestamp parse g = Some t) backup_files"
      by simp
    from i t have le: "t \<le> cutoff"
      and e: "\<exists>g \<in> set backup_files. candidate_timestamp parse g = Some t" by blast+
    have mx: "\<forall>g \<in> set backup_files. \<forall>u.
                candidate_timestamp parse g = Some u \<and> u \<le> cutoff \<longrightarrow> u \<le> t"
      using i t by fastforce
    from first [OF s e] t le mx
    show "\<exists>i t. i < length backup_files
                  \<and> backup_file bak = Some (backup_files ! i) \<and> backup_time bak = Some t
                  \<and> candidate_timestamp parse (backup_files ! i) = Some t \<and> t \<le> cutoff
                  \<and> (\<forall>g \<in> set backup_files. \<forall>u.
                        candidate_timestamp parse g = Some u \<and> u \<le> cutoff \<longrightarrow> u \<le> t)
                  \<and> (\<forall>j<i. candidate_timestamp parse (backup_files ! j) \<noteq> Some t)"
      by blast
  qed
  from r a b show ?thesis by blast
qed

theorem tie_keeps_first_seen_witness:
  "candidate_timestamp strptime_ascii ''notes~20240714-120000.txt'' \<noteq> None
   \<and> candidate_timestamp strptime_ascii ''notes~x~20240714-120000.txt'' \<noteq> None
   \<and> candidate_timestamp strptime_ascii ''notes~20240714-120000.txt''
       = candidate_timestamp strptime_ascii ''notes~x~20240714-120000.txt''
   \<and> get_backup_file_info strptime_ascii script_cutoff
        [''notes~20240714-120000.txt'', ''notes~x~20240714-120000.txt'']
       = Inr \<lparr>count = 2,
              latest_time = Some (2024, 7, 14, 12, 0, 0),
              latest_file = Some ''notes~20240714-120000.txt'',
              latest_outside_limit = False,
              backup_file = Some ''notes~20240714-120000.txt'',
              backup_time = Some (2024, 7, 14, 12, 0, 0)\<rparr>
   \<and> [''notes~20240714-120000.txt'', ''notes~x~20240714-120000.txt''] ! 0
       = ''notes~20240714-120000.txt''
   \<and> (2024, 7, 14, 12, 0, 0) \<le> script_cutoff"
proof -
  have h: "\<forall>g \<in> set [''notes~20240714-120000.txt'', ''notes~x~20240714-120000.txt''].
             candidate_timestamp strptime_ascii g \<noteq> None"
    by (simp add: example_timestamps)
  have c: "(2024, 7, 14, 12, 0, 0) \<le> script_cutoff"
    by (simp add: script_cutoff_def)
  from tie_keeps_first_seen [OF h, of script_cutoff]
  obtain bak where b: "get_backup_file_info strptime_ascii script_cutoff
        [''notes~20240714-120000.txt'', ''notes~x~20240714-120000.txt''] = Inr bak"
    by blast
  with example_tie have "bak = \<lparr>count = 2,
              latest_time = Some (2024, 7, 14, 12, 0, 0),
              latest_file = Some ''notes~20240714-120000.txt'',
              latest_outside_limit = False,
              backup_file = Some ''notes~20240714-120000.txt'',
              backup_time = Some (2024, 7, 14, 12, 0, 0)\<rparr>"
    by simp
  with b c show ?thesis
    by (simp add: example_timestamps)
qed


section \<open>The orchestrator's classification\<close>

text \<open>
  C7. When the backup directory expected for a file does not exist, the iteration for
  that file appends the file to the missing list and does nothing else: the only call it
  makes is the existence test, so no directory is listed and no candidate is scanned,
  and the loop goes on with the next file.
\<close>

theorem missing_directory_no_listing:
  assumes "\<not> path_exists p (world st) (backup_dir_path cfg file)"
  shows "\<exists>st'. process_file p cfg st file = Inr st'
           \<and> world st' = world st
           \<and> calls st' = calls st @ [Exists (backup_dir_path cfg file)]
           \<and> results st' = (results st)\<lparr>missing_files := missing_files (results st) @ [file]\<rparr>
           \<and> process_files p cfg st (file # rest) = process_files p cfg st' rest"
  using assms by (simp add: process_file_def Let_def called_def add_missing_def)

theorem missing_directory_no_listing_witness:
  "\<not> path_exists example_platform (world example_start)
        (backup_dir_path example_config ''pics/cat.png'')
   \<and> process_file example_platform example_config example_start ''pics/cat.png''
       = Inr example_missing_state
   \<and> calls example_missing_state = [Exists ''store/pics'']"
proof -
  have h: "\<not> path_exists example_platform (world example_start)
        (backup_dir_path example_config ''pics/cat.png'')"
    by code_simp
  have r: "process_file example_platform example_config example_start ''pics/cat.png''
       = Inr example_missing_state"
    by code_simp
  from missing_directory_no_listing [OF h, of "[]"] h r
  show ?thesis by (simp add: example_missing_state_def)
qed

text \<open>
  C4. When a backup was chosen for a file and the copy raises, the iteration leaves the
  result as it was, so the file is added neither to the missing list nor to the
  recovered list; the error is logged, and the loop goes on with the files that follow.
\<close>

theorem copy_failure_skips_file:
  assumes "path_exists p (world st) (backup_dir_path cfg file)"
    and "listdir p (world st) (backup_dir_path cfg file) = Some entries"
    and "get_backup_file_info (strptime p) (CUTOFF cfg) (matching_backups file entries) = Inr bak"
    and "backup_file bak = Some chosen"
    and "ensure_directory_exists p (world st) (dirname (recovery_path cfg file)) = Some w1"
    and "copy2 p w1 (backup_path cfg file chosen) (recovery_path cfg file) = (False, w2)"
  shows "\<exists>st'. process_file p cfg st file = Inr st'
           \<and> results st' = results st
           \<and> world st' = w2
           \<and> calls st' = calls st @
                [Exists (backup_dir_path cfg file), Listdir (backup_dir_path cfg file),
                 Makedirs (dirname (recovery_path cfg file)),
                 Copy2 (backup_path cfg file chosen) (recovery_path cfg file),
                 LogError (''Error copying '' @ backup_path cfg file chosen @ '' to ''
                           @ recovery_path cfg file @ ''.'')]
           \<and> process_files p cfg st (file # rest) = process_files p cfg st' rest"
proof -
  have ne: "matching_backups file entries \<noteq> []"
  proof
    assume "matching_backups file entries = []"
    with assms(3) have "bak = BackupFileInfo_init\<lparr>count := 0\<rparr>"
      by (simp add: get_backup_file_info_Nil)
    with assms(4) show False by (simp add: BackupFileInfo_init_def)
  qed
  with assms show ?thesis
    by (simp add: process_file_def copy_backup_def Let_def called_def)
qed

theorem copy_failure_skips_file_witness:
  "path_exists example_platform
     (world protected_start)
     (backup_dir_path example_config ''docs/notes.txt'')
   \<and> backup_file
        \<lparr>count = 3,
         latest_time = Some (2024, 7, 15, 3, 0, 0),
         latest_file = Some ''notes~20240715-030000.txt'',
         latest_outside_limit = True,
         backup_file = Some ''notes~20240714-190000.txt'',
         backup_time = Some ((2024, 7, 14, 19, 0, 0) :: datetime)\<rparr>
       = Some ''notes~20240714-190000.txt''
   \<and> ensure_directory_exists example_platform
        (world protected_start)
        (dirname (recovery_path example_config ''docs/notes.txt'')) = Some protected_made
   \<and> copy2 example_platform protected_made
        (backup_path example_config ''docs/notes.txt'' ''notes~20240714-190000.txt'')
        (recovery_path example_config ''docs/notes.txt'') = (False, protected_made)
   \<and> lists_of (find_and_copy_backup example_platform example_config protected_world
                 [''docs/notes.txt'', ''docs/ghost.txt''])
       = Inr ([''docs/ghost.txt''], [], [])"
proof -
  let ?entries = "[''notes~20240714-120000.txt'', ''notes~20240714-190000.txt'',
                   ''notes~20240715-030000.txt'']"
  have h1: "path_exists example_platform
     (world protected_start)
     (backup_dir_path example_config ''docs/notes.txt'')"
    by code_simp
  have h2: "listdir example_platform
     (world protected_start)
     (backup_dir_path example_config ''docs/notes.txt'') = Some ?entries"
    by code_simp
  have h3: "get_backup_file_info (strptime example_platform) (CUTOFF example_config)
              (matching_backups ''docs/notes.txt'' ?entries)
            = Inr \<lparr>count = 3,
                   latest_time = Some (2024, 7, 15, 3, 0, 0),
                   latest_file = Some ''notes~20240715-030000.txt'',
                   latest_outside_limit = True,
                   backup_file = Some ''notes~20240714-190000.txt'',
                   backup_time = Some (2024, 7, 14, 19, 0, 0)\<rparr>"
    by code_simp
  have h4: "backup_file
        \<lparr>count = 3,
         latest_time = Some (2024, 7, 15, 3, 0, 0),
         latest_file = Some ''notes~20240715-030000.txt'',
         latest_outside_limit = True,
         backup_file = Some ''notes~20240714-190000.txt'',
         backup_time = Some ((2024, 7, 14, 19, 0, 0) :: datetime)\<rparr>
       = Some ''notes~20240714-190000.txt''"
    by simp
  have h5: "ensure_directory_exists example_platform
        (world protected_start)
        (dirname (recovery_path example_config ''docs/notes.txt'')) = Some protected_made"
    by code_simp
  have h6: "copy2 example_platform protected_made
        (backup_path example_config ''docs/notes.txt'' ''notes~20240714-190000.txt'')
        (recovery_path example_config ''docs/notes.txt'') = (False, protected_made)"
    by code_simp
  have run: "lists_of (find_and_copy_backup example_platform example_config protected_world
                 [''docs/notes.txt'', ''docs/ghost.txt''])
       = Inr ([''docs/ghost.txt''], [], [])"
    by code_simp
  from copy_failure_skips_file [OF h1 h2 h3 h4 h5 h6, of "[''docs/ghost.txt'']"]
  have "\<exists>st' :: (fs_world, datetime) run_state. results st' = results protected_start"
    by blast
  with h1 h4 h5 h6 run show ?thesis by simp
qed

text \<open>
  C3 as stated fails: a candidate whose timestamp cannot be read is not skipped. The
  \<^verbatim>\<open>ValueError\<close> of \<^verbatim>\<open>strptime\<close> leaves \<open>get_backup_file_info\<close> and the
  loop, neither of which catches it, and the run ends without a result.
\<close>

theorem unparsable_candidate_skipped_counterexample:
  "candidate_timestamp strptime_ascii ''notes~garbage.txt'' = None
   \<and> candidate_timestamp strptime_ascii ''notes~20240714-120000.txt''
       = Some (2024, 7, 14, 12, 0, 0)
   \<and> get_backup_file_info strptime_ascii script_cutoff
        [''notes~20240714-120000.txt'', ''notes~garbage.txt''] = Inl ValueError
   \<and> find_and_copy_backup example_platform example_config garbage_world
        [''docs/notes.txt'', ''docs/ghost.txt''] = Inl ValueError"
  by code_simp

text \<open>
  C3, amended. When the listing for a file holds a matching candidate whose timestamp
  cannot be read, \<open>get_backup_file_info\<close> raises \<^verbatim>\<open>ValueError\<close> for the whole list
  of candidates, the iteration for that file raises it too, and the run, whatever files
  it has processed before, ends with that error: the files that follow are not processed.
\<close>

theorem unparsable_candidate_halts_run:
  assumes "process_files p cfg st0 done_files = Inr st"
    and "path_exists p (world st) (backup_dir_path cfg file)"
    and "listdir p (world st) (backup_dir_path cfg file) = Some entries"
    and "g \<in> set (matching_backups file entries)"
    and "candidate_timestamp (strptime p) g = None"
  shows "get_backup_file_info (strptime p) (CUTOFF cfg) (matching_backups file entries)
           = Inl ValueError
       \<and> process_file p cfg st file = Inl ValueError
       \<and> process_files p cfg st0 (done_files @ file # rest) = Inl ValueError"
proof -
  have sel: "get_backup_file_info (strptime p) (CUTOFF cfg) (matching_backups file entries)
               = Inl ValueError"
    unfolding get_backup_file_info_def
    using assms(4,5) by (rule scan_candidates_unparsable)
  from assms(4) have ne: "matching_backups file entries \<noteq> []" by auto
  from assms(2,3) ne sel have one: "process_file p cfg st file = Inl ValueError"
    by (simp add: process_file_def Let_def)
  with assms(1) sel show ?thesis
    by (simp add: process_files_append)
qed

theorem unparsable_candidate_halts_run_witness:
  "process_files example_platform example_config
     (initial_state garbage_world [''pics/cat.png'', ''docs/notes.txt'', ''docs/ghost.txt''])
     [''pics/cat.png'']
   = Inr garbage_reached
   \<and> path_exists example_platform (world garbage_reached)
        (backup_dir_path example_config ''docs/notes.txt'')
   \<and> listdir example_platform (world garbage_reached)
        (backup_dir_path example_config ''docs/notes.txt'')
       = Some [''notes~20240714-120000.txt'', ''notes~garbage.txt'']
   \<and> ''notes~garbage.txt''
       \<in> set (matching_backups ''docs/notes.txt''
                [''notes~20240714-120000.txt'', ''notes~garbage.txt''])
   \<and> candidate_timestamp (strptime example_platform) ''notes~garbage.txt'' = None
   \<and> find_and_copy_backup example_platform example_config garbage_world
        [''pics/cat.png'', ''docs/notes.txt'', ''docs/ghost.txt''] = Inl ValueError"
proof -
  have h1: "process_files example_platform example_config
     (initial_state garbage_world [''pics/cat.png'', ''docs/notes.txt'', ''docs/ghost.txt''])
     [''pics/cat.png''] = Inr garbage_reached"
    by code_simp
  have h2: "path_exists example_platform (world garbage_reached)
        (backup_dir_path example_config ''docs/notes.txt'')"
    by code_simp
  have h3: "listdir example_platform (world garbage_reached)
        (backup_dir_path example_config ''docs/notes.txt'')
       = Some [''notes~20240714-120000.txt'', ''notes~garbage.txt'']"
    by code_simp
  have h4: "''notes~garbage.txt''
       \<in> set (matching_backups ''docs/notes.txt''
                [''notes~20240714-120000.txt'', ''notes~garbage.txt''])"
    by code_simp
  have h5: "candidate_timestamp (strptime example_platform) ''notes~garbage.txt'' = None"
    by code_simp
  from unparsable_candidate_halts_run [OF h1 h2 h3 h4 h5, of "[''docs/ghost.txt'']"]
  have "process_files example_platform example_config
          (initial_state garbage_world [''pics/cat.png'', ''docs/notes.txt'', ''docs/ghost.txt''])
          ([''pics/cat.png''] @ ''docs/notes.txt'' # [''docs/ghost.txt'']) = Inl ValueError"
    by blast
  then have run: "find_and_copy_backup example_platform example_config garbage_world
        [''pics/cat.png'', ''docs/notes.txt'', ''docs/ghost.txt''] = Inl ValueError"
    by (simp add: find_and_copy_backup_def)
  from h1 h2 h3 h4 h5 run show ?thesis by blast
qed

text \<open>
  C9 as stated fails for a sequence that names a path twice: the path can be classified
  missing at its first visit and recovered at its second, when a copy made in between
  has created its backup directory.
\<close>

theorem duplicate_path_in_both_lists_counterexample:
  "lists_of (find_and_copy_backup example_platform nested_config nested_world
              [''a/b/n.txt'', ''b/n~20240101-000000.txt'', ''a/b/n.txt''])
   = Inr ([''a/b/n.txt''],
          [(''b/n~20240101-000000.txt'', ''n~20240101-000000~20240102-000000.txt'',
            Some (2024, 1, 2, 0, 0, 0), 1, False,
            Some ''n~20240101-000000~20240102-000000.txt'', Some (2024, 1, 2, 0, 0, 0)),
           (''a/b/n.txt'', ''n~20240101-000000.txt'',
            Some (2024, 1, 1, 0, 0, 0), 1, False,
            Some ''n~20240101-000000.txt'', Some (2024, 1, 1, 0, 0, 0))],
          [])"
  by code_simp

text \<open>
  C9, amended. For every sequence of pairwise distinct original files, the missing list
  and the recovered list share no file after any number of iterations of the loop, and
  so in the returned result.
\<close>

theorem missing_and_recovered_exclusive:
  assumes "distinct all_files"
  shows "(\<forall>k st. process_files p cfg (initial_state w all_files) (take k all_files) = Inr st
            \<longrightarrow> set (missing_files (results st)) \<inter> fst ` set (recovered_files (results st)) = {})
       \<and> (\<forall>st. find_and_copy_backup p cfg w all_files = Inr st
            \<longrightarrow> set (missing_files (results st)) \<inter> fst ` set (recovered_files (results st)) = {})"
proof -
  have a: "set (missing_files (results st)) \<inter> fst ` set (recovered_files (results st)) = {}"
    if run: "process_files p cfg (initial_state w all_files) (take k all_files) = Inr st" for k st
  proof -
    have d: "distinct (take k all_files)" using assms by simp
    have z: "set (take k all_files) \<inter> named_files (results (initial_state w all_files)) = {}"
      by (simp add: initial_state_exclusive(2))
    from process_files_exclusive [OF run initial_state_exclusive(1) d z]
    have "exclusive (results st)" by blast
    then show ?thesis by (simp add: exclusive_def)
  qed
  have b: "set (missing_files (results st)) \<inter> fst ` set (recovered_files (results st)) = {}"
    if "find_and_copy_backup p cfg w all_files = Inr st" for st
    using a [of "length all_files" st] that by (simp add: find_and_copy_backup_def)
  from a b show ?thesis by blast
qed

theorem missing_and_recovered_exclusive_witness:
  "distinct [''docs/notes.txt'', ''docs/ghost.txt'', ''pics/cat.png'']
   \<and> find_and_copy_backup example_platform example_config example_world
        [''docs/notes.txt'', ''docs/ghost.txt'', ''pics/cat.png''] = Inr example_final_state
   \<and> set (missing_files (results example_final_state))
        \<inter> fst ` set (recovered_files (results example_final_state)) = {}
   \<and> missing_files (results example_final_state) = [''docs/ghost.txt'', ''pics/cat.png'']
   \<and> map fst (recovered_files (results example_final_state)) = [''docs/notes.txt'']"
proof -
  have d: "distinct [''docs/notes.txt'', ''docs/ghost.txt'', ''pics/cat.png'']"
    by simp
  have lists: "missing_files (results example_final_state) = [''docs/ghost.txt'', ''pics/cat.png'']"
    "map fst (recovered_files (results example_final_state)) = [''docs/notes.txt'']"
    by (simp_all add: example_final_state_def)
  from missing_and_recovered_exclusive [OF d, of example_platform example_config example_world]
       example_run
  have "set (missing_files (results example_final_state))
        \<inter> fst ` set (recovered_files (results example_final_state)) = {}"
    by blast
  with d example_run lists show ?thesis by blast
qed

text \<open>
  C10. In every returned result the three counters \<open>total_missing\<close>,
  \<open>total_recovered\<close> and \<open>total_possibly_corrupted\<close> are 0 and the four fields
  \<open>earliest_file_used\<close>, \<open>earliest_time_used\<close>, \<open>latest_file_used\<close> and
  \<open>latest_time_used\<close> are undefined, however many files were classified;
  \<open>total_original\<close> is the number of files given.
\<close>

theorem aggregates_never_updated:
  assumes "find_and_copy_backup p cfg w all_files = Inr st"
  shows "total_missing (results st) = 0 \<and> total_recovered (results st) = 0
       \<and> total_possibly_corrupted (results st) = 0
       \<and> earliest_file_used (results st) = None \<and> earliest_time_used (results st) = None
       \<and> latest_file_used (results st) = None \<and> latest_time_used (results st) = None
       \<and> total_original (results st) = int (length all_files)"
proof -
  have "untouched (results (initial_state w all_files))"
    by (simp add: untouched_def initial_state_def FileRecoveryResult_init_def)
  with assms have "untouched (results st)"
    unfolding find_and_copy_backup_def by (rule process_files_untouched)
  moreover have "total_original (results st) = int (length all_files)"
    using process_files_total_original [OF assms [unfolded find_and_copy_backup_def]]
    by (simp add: initial_state_def FileRecoveryResult_init_def)
  ultimately show ?thesis by (simp add: untouched_def)
qed

theorem aggregates_never_updated_witness:
  "find_and_copy_backup example_platform example_config example_world
     [''docs/notes.txt'', ''docs/ghost.txt'', ''pics/cat.png''] = Inr example_final_state
   \<and> missing_files (results example_final_state) = [''docs/ghost.txt'', ''pics/cat.png'']
   \<and> map fst (recovered_files (results example_final_state)) = [''docs/notes.txt'']
   \<and> total_missing (results example_final_state) = 0
   \<and> total_recovered (results example_final_state) = 0
   \<and> total_possibly_corrupted (results example_final_state) = 0
   \<and> earliest_file_used (results example_final_state) = None
   \<and> earliest_time_used (results example_final_state) = None
   \<and> latest_file_used (results example_final_state) = None
   \<and> latest_time_used (results example_final_state) = None
   \<and> total_original (results example_final_state) = 3"
proof -
  have lists: "missing_files (results example_final_state) = [''docs/ghost.txt'', ''pics/cat.png'']"
    "map fst (recovered_files (results example_final_state)) = [''docs/notes.txt'']"
    by (simp_all add: example_final_state_def)
  from aggregates_never_updated [OF example_run] lists example_run
  show ?thesis by simp
qed

text \<open>
  C1. The script does not do what the claim says. On a file that is recovered while its
  latest backup lies after the cutoff, the recovered row carries the flag, and the
  possibly-corrupted list of the result is empty: the loop never appends to it.
\<close>

theorem possibly_corrupted_list_stays_empty:
  "lists_of (find_and_copy_backup example_platform example_config example_world
              [''docs/notes.txt''])
   = Inr ([],
          [(''docs/notes.txt'', ''notes~20240714-190000.txt'', Some (2024, 7, 14, 19, 0, 0),
            3, True, Some ''notes~20240715-030000.txt'', Some (2024, 7, 15, 3, 0, 0))],
          [])"
  by code_simp

end
